theory Spec2Isabelle
  imports Complex_Main "HOL-Library.Word"
begin

section \<open>TunableOp: online selection of the fastest candidate kernel\<close>

text \<open>
  A shallow embedding of \<^verbatim>\<open>aten/src/ATen/cuda/tunable/TunableOp.h\<close>: the class
  \<^verbatim>\<open>TunableOp<ParamsT, TimerT>\<close> with its entry point \<^verbatim>\<open>operator()\<close>, the benchmark
  harness \<^verbatim>\<open>WarmUp\<close> / \<^verbatim>\<open>Profile\<close> and the selector \<^verbatim>\<open>FindFastest\<close>.
\<close>

subsection \<open>Machine integers\<close>

text \<open>
  \<^verbatim>\<open>size_t\<close> is the 64-bit unsigned integer of the LP64 and LLP64 targets the header is
  built for, \<^verbatim>\<open>int\<close> the 32-bit two's complement integer (read with \<^const>\<open>sint\<close>).
\<close>

type_synonym size_t = "64 word"
type_synonym int32 = "32 word"

text \<open>\<^verbatim>\<open>std::min(a, b)\<close> is \<^verbatim>\<open>(b < a) ? b : a\<close>, \<^verbatim>\<open>std::max(a, b)\<close> is
  \<^verbatim>\<open>(a < b) ? b : a\<close>, on \<^verbatim>\<open>int\<close>.\<close>

definition std_min :: "int32 \<Rightarrow> int32 \<Rightarrow> int32" where
  "std_min a b = (if b <s a then b else a)"

definition std_max :: "int32 \<Rightarrow> int32 \<Rightarrow> int32" where
  "std_max a b = (if a <s b then b else a)"

text \<open>\<^verbatim>\<open>static_cast<int>(n)\<close> of a \<^verbatim>\<open>size_t\<close> keeps the low 32 bits; an \<^verbatim>\<open>int\<close> passed
  where a \<^verbatim>\<open>size_t\<close> is expected is sign-extended.\<close>

definition int_of_size_t :: "size_t \<Rightarrow> int32" where
  "int_of_size_t n = ucast n"

definition size_t_of_int :: "int32 \<Rightarrow> size_t" where
  "size_t_of_int i = scast i"

subsection \<open>Durations\<close>

text \<open>
  Durations are C++ \<^verbatim>\<open>double\<close>s. A finite double is modelled by the real number it
  denotes; the two infinities and NaN are values of their own, with the IEEE rules for
  comparison (every comparison with NaN is false), multiplication and division.
  Rounding, overflow of finite arithmetic to infinity and the sign of zero are not
  modelled.
\<close>

datatype double = Fin real | PInf | MInf | NaN

fun dlt :: "double \<Rightarrow> double \<Rightarrow> bool" where
  "dlt (Fin x) (Fin y) = (x < y)"
| "dlt (Fin x) PInf = True"
| "dlt MInf (Fin y) = True"
| "dlt MInf PInf = True"
| "dlt _ _ = False"

definition dgt :: "double \<Rightarrow> double \<Rightarrow> bool" where
  "dgt a b = dlt b a"

definition dge :: "double \<Rightarrow> double \<Rightarrow> bool" where
  "dge a b = (dlt b a \<or> (a \<noteq> NaN \<and> a = b))"

fun dmul :: "double \<Rightarrow> double \<Rightarrow> double" where
  "dmul NaN _ = NaN"
| "dmul _ NaN = NaN"
| "dmul (Fin x) (Fin y) = Fin (x * y)"
| "dmul (Fin x) PInf = (if x = 0 then NaN else if 0 < x then PInf else MInf)"
| "dmul (Fin x) MInf = (if x = 0 then NaN else if 0 < x then MInf else PInf)"
| "dmul PInf (Fin y) = (if y = 0 then NaN else if 0 < y then PInf else MInf)"
| "dmul MInf (Fin y) = (if y = 0 then NaN else if 0 < y then MInf else PInf)"
| "dmul PInf PInf = PInf"
| "dmul MInf MInf = PInf"
| "dmul PInf MInf = MInf"
| "dmul MInf PInf = MInf"

fun ddiv :: "double \<Rightarrow> double \<Rightarrow> double" where
  "ddiv NaN _ = NaN"
| "ddiv _ NaN = NaN"
| "ddiv (Fin x) (Fin y) =
     (if y = 0 then (if x = 0 then NaN else if 0 < x then PInf else MInf) else Fin (x / y))"
| "ddiv (Fin x) PInf = Fin 0"
| "ddiv (Fin x) MInf = Fin 0"
| "ddiv PInf (Fin y) = (if 0 \<le> y then PInf else MInf)"
| "ddiv MInf (Fin y) = (if 0 \<le> y then MInf else PInf)"
| "ddiv _ _ = NaN"

definition double_of_size_t :: "size_t \<Rightarrow> double" where
  "double_of_size_t n = Fin (real (unat n))"

subsection \<open>Errors\<close>

text \<open>
  \<^verbatim>\<open>TORCH_CHECK(cond)\<close> throws when \<^verbatim>\<open>cond\<close> is false, and nothing in the header catches
  it. The other constructors mark the places where the C++ has no defined behaviour:
  a call through the null pointer that \<^verbatim>\<open>ops_[name]\<close> inserts for an unregistered name,
  an integer division by zero, an index into an empty vector, and the conversion to
  \<^verbatim>\<open>int\<close> of a double whose truncation is not an \<^verbatim>\<open>int\<close>.
\<close>

datatype error =
    TORCH_CHECK_failed
  | Null_callable
  | Division_by_zero
  | Out_of_bounds
  | Float_to_int_undefined

text \<open>The conversion \<^verbatim>\<open>int n = d\<close> truncates towards zero.\<close>

definition trunc_real :: "real \<Rightarrow> int" where
  "trunc_real x = (if 0 \<le> x then \<lfloor>x\<rfloor> else \<lceil>x\<rceil>)"

fun int_of_double :: "double \<Rightarrow> error + int32" where
  "int_of_double (Fin x) =
     (if - (2 ^ 31) \<le> trunc_real x \<and> trunc_real x < 2 ^ 31
      then Inr (word_of_int (trunc_real x)) else Inl Float_to_int_undefined)"
| "int_of_double _ = Inl Float_to_int_undefined"

subsection \<open>The collaborators declared in Tunable.h\<close>

text \<open>
  Modelled from the spec: \<^verbatim>\<open>TuningStatus\<close> is declared in \<^verbatim>\<open>Tunable.h\<close>, which is not
  among the sources. A call returns OK or FAIL; the header tests only \<^verbatim>\<open>== OK\<close> and
  \<^verbatim>\<open>!= OK\<close>.
\<close>

datatype TuningStatus = OK | FAIL

text \<open>
  Modelled from the spec: \<^verbatim>\<open>ResultEntry\<close> is declared in \<^verbatim>\<open>Tunable.h\<close>. A decision is
  Null (nothing cached), Default (the explicit fallback) or a candidate's name with its
  measured duration, which is what \<^verbatim>\<open>ResultEntry(id_name, min_duration_ms)\<close> builds.
  Used as a key of the registry (\<^verbatim>\<open>ops_.find(result)\<close>, \<^verbatim>\<open>ops_[ResultEntry::Default()]\<close>)
  a decision stands for a candidate name; Default stands for the name the selector seeds
  \<^verbatim>\<open>id_name\<close> with.
\<close>

datatype ResultEntry = Null | Default | Named string double

fun entry_key :: "ResultEntry \<Rightarrow> string" where
  "entry_key Null = ''Null''"
| "entry_key Default = ''Default''"
| "entry_key (Named name t) = name"

text \<open>
  The getters of \<^verbatim>\<open>TuningContext\<close> the header calls. \<^verbatim>\<open>IsICacheFlushEnabled\<close> is read
  both as a \<^verbatim>\<open>bool\<close> (\<^verbatim>\<open>do_flush\<close>) and as an \<^verbatim>\<open>int\<close> (\<^verbatim>\<open>flush_iters\<close>), so it is kept as
  the \<^verbatim>\<open>int\<close>; both duration knobs are read into a \<^verbatim>\<open>double\<close>.
\<close>

record TuningContext =
  IsTunableOpEnabled :: bool
  IsTuningEnabled :: bool
  IsNumericsCheckEnabled :: bool
  IsICacheFlushEnabled :: int32
  GetRotatingBufferSize :: size_t
  GetMaxWarmupDurationMs :: double
  GetMaxWarmupIterations :: int32
  GetMaxTuningDurationMs :: double
  GetMaxTuningIterations :: int32

subsection \<open>Iteration-count calibration (FindFastest, lines 192-229)\<close>

text \<open>\<^verbatim>\<open>int duration_iters = max_duration / approx_duration;\<close>\<close>

definition duration_iters :: "double \<Rightarrow> double \<Rightarrow> error + int32" where
  "duration_iters max_duration approx_duration =
     int_of_double (ddiv max_duration approx_duration)"

text \<open>Lines 194-208: the warmup iteration count.\<close>

definition warmup_iter_of :: "TuningContext \<Rightarrow> double \<Rightarrow> error + int32" where
  "warmup_iter_of ctx approx_duration =
     (let max_warmup_duration = GetMaxWarmupDurationMs ctx;
          max_warmup_iter = GetMaxWarmupIterations ctx
      in if dge max_warmup_duration (Fin 0) then
           (case duration_iters max_warmup_duration approx_duration of
              Inl e \<Rightarrow> Inl e
            | Inr d_iters \<Rightarrow>
                if 0 \<le>s max_warmup_iter then Inr (std_min max_warmup_iter d_iters)
                else Inr d_iters)
         else if 0 \<le>s max_warmup_iter then Inr max_warmup_iter
         else Inr 1)"

text \<open>Lines 211-229: the tuning iteration count, with its two floors.\<close>

definition tuning_iter_of :: "TuningContext \<Rightarrow> double \<Rightarrow> size_t \<Rightarrow> error + int32" where
  "tuning_iter_of ctx approx_duration pool_size =
     (let max_tuning_duration = GetMaxTuningDurationMs ctx;
          max_tuning_iter = GetMaxTuningIterations ctx;
          floors = (\<lambda>tuning_iter. std_max (int_of_size_t pool_size) (std_max 1 tuning_iter))
      in if dgt max_tuning_duration (Fin 0) then
           (case duration_iters max_tuning_duration approx_duration of
              Inl e \<Rightarrow> Inl e
            | Inr d_iters \<Rightarrow>
                if 0 <s max_tuning_iter then Inr (floors (std_min max_tuning_iter d_iters))
                else Inr (floors d_iters))
         else if 0 <s max_tuning_iter then Inr (floors max_tuning_iter)
         else Inr (floors 100))"

subsection \<open>Buffer pool sizing (FindFastest, lines 140-143)\<close>

text \<open>\<^verbatim>\<open>size_t param_count = (rotating_size / param_size) + 1;\<close> in \<^verbatim>\<open>size_t\<close> arithmetic.\<close>

definition param_count :: "size_t \<Rightarrow> size_t \<Rightarrow> error + size_t" where
  "param_count rotating_size param_size =
     (if param_size = 0 then Inl Division_by_zero
      else Inr (rotating_size div param_size + 1))"

subsection \<open>The world the header runs in\<close>

text \<open>
  A \<^verbatim>\<open>ParamsT\<close> object (the caller's, or a deep copy) is known by an identifier. The
  state of the device, of the buffers and of the clock is a value of an arbitrary type
  \<open>'e\<close>, changed only by the external calls; the world adds the results cache, the
  parameter copies that are allocated and not yet released, and the trace of what the
  header did: its external calls and the \<^verbatim>\<open>TUNABLE_LOG\<close> lines that report a decision
  (each with the loop index and the candidate name it prints).
\<close>

type_synonym pid = nat

datatype event =
    Flushed
  | DeepCopied pid bool
  | Deleted pid
  | Called pid TuningStatus
  | NumericalChecked pid pid TuningStatus
  | TimerStarted
  | TimerEnded
  | Log_no_result
  | Log_finding_fastest nat
  | Log_unsupported nat string
  | Log_numerics_failed nat string
  | Log_skip_slow nat string
  | Log_tuning int32 int32 nat string
  | Log_found_better nat double string
  | Log_found_fastest string

record 'e world =
  env :: 'e
  results :: "string \<times> string \<Rightarrow> ResultEntry option"
  live :: "pid list"
  next_pid :: pid
  trace :: "event list"

text \<open>A computation returns a value or stops with an error, and leaves a world.\<close>

type_synonym ('a, 'e) run = "'e world \<Rightarrow> (error + 'a) \<times> 'e world"

definition ret :: "'a \<Rightarrow> ('a, 'e) run" where
  "ret v w = (Inr v, w)"

definition throw :: "error \<Rightarrow> ('a, 'e) run" where
  "throw err w = (Inl err, w)"

definition bindM :: "('a, 'e) run \<Rightarrow> ('a \<Rightarrow> ('b, 'e) run) \<Rightarrow> ('b, 'e) run" where
  "bindM m f w = (case m w of (Inl err, w') \<Rightarrow> (Inl err, w') | (Inr v, w') \<Rightarrow> f v w')"

definition emit :: "event \<Rightarrow> (unit, 'e) run" where
  "emit ev w = (Inr (), w\<lparr>trace := trace w @ [ev]\<rparr>)"

definition TORCH_CHECK :: "bool \<Rightarrow> (unit, 'e) run" where
  "TORCH_CHECK cond = (if cond then ret () else throw TORCH_CHECK_failed)"

text \<open>The capabilities injected into the header: the instruction-cache flush and the
  timer \<^verbatim>\<open>TimerT\<close>.\<close>

record 'e platform =
  flush_icache :: "'e \<Rightarrow> 'e"
  timer_Start :: "'e \<Rightarrow> 'e"
  timer_End :: "'e \<Rightarrow> 'e"
  timer_Duration :: "'e \<Rightarrow> double"

text \<open>\<^verbatim>\<open>Callable<ParamsT>\<close>: what \<^verbatim>\<open>Call\<close> returns and does is the candidate's own.
  (\<^verbatim>\<open>IsSupported\<close> is not called anywhere in the header.)\<close>

record 'e Callable =
  Call :: "pid \<Rightarrow> 'e \<Rightarrow> TuningStatus \<times> 'e"

text \<open>
  The methods of \<^verbatim>\<open>ParamsT\<close> that compute a value. Modelled from the spec:
  \<^verbatim>\<open>DeepCopy\<close> returns an owned copy and \<^verbatim>\<open>Delete\<close> releases it explicitly, so a copy is a
  fresh identifier added to \<^const>\<open>live\<close> and \<^verbatim>\<open>Delete\<close> removes it.
\<close>

record 'e ParamsT =
  Signature :: string
  GetSize :: "bool \<Rightarrow> size_t"
  NumericalCheck :: "pid \<Rightarrow> pid \<Rightarrow> 'e \<Rightarrow> TuningStatus \<times> 'e"

definition DeepCopy :: "bool \<Rightarrow> (pid, 'e) run" where
  "DeepCopy rotating w =
     (Inr (next_pid w),
      w\<lparr>live := live w @ [next_pid w], next_pid := Suc (next_pid w),
        trace := trace w @ [DeepCopied (next_pid w) rotating]\<rparr>)"

definition Delete :: "pid \<Rightarrow> (unit, 'e) run" where
  "Delete p w = (Inr (), w\<lparr>live := removeAll p (live w), trace := trace w @ [Deleted p]\<rparr>)"

definition call_op :: "'e Callable \<Rightarrow> pid \<Rightarrow> (TuningStatus, 'e) run" where
  "call_op op p w =
     (case Call op p (env w) of
        (status, e') \<Rightarrow> (Inr status, w\<lparr>env := e', trace := trace w @ [Called p status]\<rparr>))"

definition numerical_check :: "'e ParamsT \<Rightarrow> pid \<Rightarrow> pid \<Rightarrow> (TuningStatus, 'e) run" where
  "numerical_check P reference p w =
     (case NumericalCheck P reference p (env w) of
        (status, e') \<Rightarrow>
          (Inr status, w\<lparr>env := e', trace := trace w @ [NumericalChecked reference p status]\<rparr>))"

definition do_flush_icache :: "'e platform \<Rightarrow> (unit, 'e) run" where
  "do_flush_icache X w = (Inr (), w\<lparr>env := flush_icache X (env w), trace := trace w @ [Flushed]\<rparr>)"

definition timer_start :: "'e platform \<Rightarrow> (unit, 'e) run" where
  "timer_start X w = (Inr (), w\<lparr>env := timer_Start X (env w), trace := trace w @ [TimerStarted]\<rparr>)"

definition timer_end :: "'e platform \<Rightarrow> (unit, 'e) run" where
  "timer_end X w = (Inr (), w\<lparr>env := timer_End X (env w), trace := trace w @ [TimerEnded]\<rparr>)"

definition timer_duration :: "'e platform \<Rightarrow> (double, 'e) run" where
  "timer_duration X w = (Inr (timer_Duration X (env w)), w)"

text \<open>
  Modelled from the spec: the results cache of \<^verbatim>\<open>TuningResultsManager\<close> (declared in
  \<^verbatim>\<open>Tunable.h\<close>) is keyed by (operation signature, parameter signature); a lookup that
  finds nothing returns Null, and an insert writes the decision under the key.
\<close>

definition Lookup :: "string \<Rightarrow> string \<Rightarrow> (ResultEntry, 'e) run" where
  "Lookup op_sig params_sig w =
     (Inr (case results w (op_sig, params_sig) of None \<Rightarrow> Null | Some r \<Rightarrow> r), w)"

definition Add :: "string \<Rightarrow> string \<Rightarrow> ResultEntry \<Rightarrow> (unit, 'e) run" where
  "Add op_sig params_sig result w =
     (Inr (), w\<lparr>results := (results w)((op_sig, params_sig) \<mapsto> result)\<rparr>)"

subsection \<open>The operation and its registry\<close>

text \<open>
  The members \<^verbatim>\<open>signature_\<close>, \<^verbatim>\<open>ops_\<close> and \<^verbatim>\<open>op_names_\<close>, written without the trailing
  underscore: what \<^verbatim>\<open>Signature()\<close> returns (the demangled type name, computed once),
  the map from names to candidates, and the names in registration order.
\<close>

record 'e TunableOp =
  op_signature :: string
  ops :: "string \<Rightarrow> 'e Callable option"
  op_names :: "string list"

text \<open>Lines 85-88. \<^verbatim>\<open>emplace\<close> keeps the candidate already stored under a name.\<close>

definition RegisterOp :: "string \<Rightarrow> 'e Callable \<Rightarrow> 'e TunableOp \<Rightarrow> 'e TunableOp" where
  "RegisterOp name op t =
     t\<lparr>op_names := op_names t @ [name],
       ops := (case ops t name of None \<Rightarrow> (ops t)(name \<mapsto> op) | Some _ \<Rightarrow> ops t)\<rparr>"

subsection \<open>The benchmark harness (lines 91-115)\<close>

text \<open>
  The loop of \<^verbatim>\<open>WarmUp\<close> and of \<^verbatim>\<open>Profile\<close>: iteration \<open>i\<close> with \<open>n\<close> iterations left to
  run. \<^verbatim>\<open>i % param.size()\<close> divides by zero on an empty vector.
\<close>

fun call_loop :: "'e platform \<Rightarrow> bool \<Rightarrow> 'e Callable \<Rightarrow> pid list \<Rightarrow> nat \<Rightarrow> nat \<Rightarrow> (unit, 'e) run" where
  "call_loop X do_flush op param i 0 = ret ()"
| "call_loop X do_flush op param i (Suc n) =
     bindM (if do_flush then do_flush_icache X else ret ()) (\<lambda>_.
     if param = [] then throw Division_by_zero
     else bindM (call_op op (param ! (i mod length param))) (\<lambda>status.
          bindM (TORCH_CHECK (status = OK)) (\<lambda>_.
          call_loop X do_flush op param (Suc i) n)))"

definition WarmUp :: "'e platform \<Rightarrow> TuningContext \<Rightarrow> 'e Callable \<Rightarrow> pid list \<Rightarrow> size_t \<Rightarrow> (unit, 'e) run" where
  "WarmUp X ctx op param num_iter =
     call_loop X (IsICacheFlushEnabled ctx \<noteq> 0) op param 0 (unat num_iter)"

definition Profile :: "'e platform \<Rightarrow> TuningContext \<Rightarrow> 'e Callable \<Rightarrow> pid list \<Rightarrow> size_t \<Rightarrow> (double, 'e) run" where
  "Profile X ctx op param num_iter =
     bindM (timer_start X) (\<lambda>_.
     bindM (call_loop X (IsICacheFlushEnabled ctx \<noteq> 0) op param 0 (unat num_iter)) (\<lambda>_.
     bindM (timer_end X) (\<lambda>_.
     bindM (timer_duration X) (\<lambda>d.
     ret (ddiv d (double_of_size_t num_iter))))))"

subsection \<open>The selector FindFastest (lines 118-254)\<close>

text \<open>Lines 126-132: \<^verbatim>\<open>for (int i = 0; i < flush_iters; i++) flush_icache();\<close>\<close>

fun flush_times :: "'e platform \<Rightarrow> nat \<Rightarrow> (unit, 'e) run" where
  "flush_times X 0 = ret ()"
| "flush_times X (Suc n) = bindM (do_flush_icache X) (\<lambda>_. flush_times X n)"

text \<open>Lines 153-156: the vector of \<open>n\<close> deep copies.\<close>

fun deep_copies :: "bool \<Rightarrow> nat \<Rightarrow> (pid list, 'e) run" where
  "deep_copies rotating 0 = ret []"
| "deep_copies rotating (Suc n) =
     bindM (DeepCopy rotating) (\<lambda>p.
     bindM (deep_copies rotating n) (\<lambda>ps. ret (p # ps)))"

text \<open>
  Lines 140-156: the pool of reusable parameter copies. (The allocation of the vector
  itself is taken to succeed.)
\<close>

definition make_pool :: "TuningContext \<Rightarrow> 'e ParamsT \<Rightarrow> (pid list, 'e) run" where
  "make_pool ctx P =
     (let rotating_size = GetRotatingBufferSize ctx;
          use_buffer_rotation = (0 < rotating_size);
          param_size = GetSize P use_buffer_rotation
      in case param_count rotating_size param_size of
           Inl err \<Rightarrow> throw err
         | Inr n \<Rightarrow> deep_copies use_buffer_rotation (unat n))"

text \<open>Lines 247-249.\<close>

fun delete_all :: "pid list \<Rightarrow> (unit, 'e) run" where
  "delete_all [] = ret ()"
| "delete_all (p # ps) = bindM (Delete p) (\<lambda>_. delete_all ps)"

text \<open>
  Lines 161-181, the correctness gate of one candidate: the result is \<open>False\<close> where the
  source says \<^verbatim>\<open>continue\<close>, and \<open>True\<close> where it goes on to the timing.
\<close>

definition correctness_gate ::
  "TuningContext \<Rightarrow> 'e ParamsT \<Rightarrow> 'e Callable \<Rightarrow> pid \<Rightarrow> pid list \<Rightarrow> nat \<Rightarrow> string \<Rightarrow> (bool, 'e) run" where
  "correctness_gate ctx P candidate reference_params reusable_params i name =
     (if IsNumericsCheckEnabled ctx then
        bindM (DeepCopy False) (\<lambda>numerical_params.
        bindM (call_op candidate numerical_params) (\<lambda>status.
        if status \<noteq> OK then
          bindM (emit (Log_unsupported i name)) (\<lambda>_. ret False)
        else
          bindM (numerical_check P reference_params numerical_params) (\<lambda>status.
          bindM (Delete numerical_params) (\<lambda>_.
          if status \<noteq> OK then
            bindM (emit (Log_numerics_failed i name)) (\<lambda>_. ret False)
          else ret True))))
      else if reusable_params = [] then throw Out_of_bounds
      else
        bindM (call_op candidate (reusable_params ! 0)) (\<lambda>status.
        if status \<noteq> OK then
          bindM (emit (Log_unsupported i name)) (\<lambda>_. ret False)
        else ret True))"

text \<open>Line 187: \<^verbatim>\<open>approx_duration > 2 * min_duration_ms\<close>.\<close>

definition too_slow :: "double \<Rightarrow> double \<Rightarrow> bool" where
  "too_slow approx_duration min_duration_ms = dgt approx_duration (dmul (Fin 2) min_duration_ms)"

text \<open>
  Lines 192-244, for a candidate that passed the gate and was not skipped: calibrate,
  warm up, measure, and take the lead when faster. The state read and returned is
  \<^verbatim>\<open>(min_duration_ms, id_name)\<close>.
\<close>

definition tune_candidate ::
  "'e platform \<Rightarrow> TuningContext \<Rightarrow> 'e Callable \<Rightarrow> pid list \<Rightarrow> nat \<Rightarrow> string \<Rightarrow>
   double \<times> string \<Rightarrow> double \<Rightarrow> (double \<times> string, 'e) run" where
  "tune_candidate X ctx candidate reusable_params i name leader approx_duration =
     (case warmup_iter_of ctx approx_duration of
        Inl err \<Rightarrow> throw err
      | Inr warmup_iter \<Rightarrow>
     (case tuning_iter_of ctx approx_duration (of_nat (length reusable_params)) of
        Inl err \<Rightarrow> throw err
      | Inr tuning_iter \<Rightarrow>
        bindM (emit (Log_tuning warmup_iter tuning_iter i name)) (\<lambda>_.
        bindM (WarmUp X ctx candidate reusable_params (size_t_of_int warmup_iter)) (\<lambda>_.
        bindM (Profile X ctx candidate reusable_params (size_t_of_int tuning_iter)) (\<lambda>duration_ms.
        if dlt duration_ms (fst leader) then
          bindM (emit (Log_found_better i duration_ms name)) (\<lambda>_. ret (duration_ms, name))
        else ret leader)))))"

text \<open>
  Lines 159-244, the body of the per-candidate loop for the name \<^verbatim>\<open>op_names_[i]\<close>. A
  name that is not in \<^verbatim>\<open>ops_\<close> gives a null candidate.
\<close>

definition evaluate_candidate ::
  "'e platform \<Rightarrow> TuningContext \<Rightarrow> 'e TunableOp \<Rightarrow> 'e ParamsT \<Rightarrow> pid \<Rightarrow> pid list \<Rightarrow> nat \<Rightarrow> string \<Rightarrow>
   double \<times> string \<Rightarrow> (double \<times> string, 'e) run" where
  "evaluate_candidate X ctx t P reference_params reusable_params i name leader =
     (case ops t name of
        None \<Rightarrow> throw Null_callable
      | Some candidate \<Rightarrow>
        bindM (correctness_gate ctx P candidate reference_params reusable_params i name) (\<lambda>passed.
        if \<not> passed then ret leader
        else
          bindM (Profile X ctx candidate reusable_params 3) (\<lambda>approx_duration.
          if too_slow approx_duration (fst leader) then
            bindM (emit (Log_skip_slow i name)) (\<lambda>_. ret leader)
          else tune_candidate X ctx candidate reusable_params i name leader approx_duration)))"

text \<open>Line 158: the loop over \<^verbatim>\<open>op_names_\<close>, from index \<open>i\<close> on.\<close>

fun candidates_loop ::
  "'e platform \<Rightarrow> TuningContext \<Rightarrow> 'e TunableOp \<Rightarrow> 'e ParamsT \<Rightarrow> pid \<Rightarrow> pid list \<Rightarrow> nat \<Rightarrow> string list \<Rightarrow>
   double \<times> string \<Rightarrow> (double \<times> string, 'e) run" where
  "candidates_loop X ctx t P reference_params reusable_params i [] leader = ret leader"
| "candidates_loop X ctx t P reference_params reusable_params i (name # names) leader =
     bindM (evaluate_candidate X ctx t P reference_params reusable_params i name leader) (\<lambda>leader'.
     candidates_loop X ctx t P reference_params reusable_params (Suc i) names leader')"

text \<open>
  Lines 134-136: the reference answer, computed on a fresh copy by the candidate
  registered as Default. \<^verbatim>\<open>ops_[ResultEntry::Default()]\<close> of an operation with no such
  candidate is a null candidate.
\<close>

definition reference_answer :: "'e TunableOp \<Rightarrow> (pid, 'e) run" where
  "reference_answer t =
     bindM (DeepCopy False) (\<lambda>reference_params.
     (case ops t (entry_key Default) of
        None \<Rightarrow> throw Null_callable
      | Some default_op \<Rightarrow>
        bindM (call_op default_op reference_params) (\<lambda>status.
        bindM (TORCH_CHECK (status = OK)) (\<lambda>_.
        ret reference_params))))"

text \<open>Lines 247-250: release the pool and the reference copy.\<close>

definition teardown :: "pid list \<Rightarrow> pid \<Rightarrow> (unit, 'e) run" where
  "teardown reusable_params reference_params =
     bindM (delete_all reusable_params) (\<lambda>_. Delete reference_params)"

text \<open>\<^verbatim>\<open>FindFastest(params)\<close>: the leader starts as \<^verbatim>\<open>(infinity, "Default")\<close>.\<close>

definition FindFastest ::
  "'e platform \<Rightarrow> TuningContext \<Rightarrow> 'e TunableOp \<Rightarrow> 'e ParamsT \<Rightarrow> pid \<Rightarrow> (ResultEntry, 'e) run" where
  "FindFastest X ctx t P params =
     bindM (emit (Log_finding_fastest (length (op_names t)))) (\<lambda>_.
     bindM (flush_times X (nat (sint (IsICacheFlushEnabled ctx)))) (\<lambda>_.
     bindM (reference_answer t) (\<lambda>reference_params.
     bindM (make_pool ctx P) (\<lambda>reusable_params.
     bindM (candidates_loop X ctx t P reference_params reusable_params 0 (op_names t)
              (PInf, ''Default'')) (\<lambda>leader.
     bindM (teardown reusable_params reference_params) (\<lambda>_.
     bindM (emit (Log_found_fastest (snd leader))) (\<lambda>_.
     ret (Named (snd leader) (fst leader)))))))))"

subsection \<open>The entry point operator() (lines 48-72)\<close>

text \<open>Lines 69-71: find the candidate the decision names, check it exists, call it.\<close>

definition dispatch :: "'e TunableOp \<Rightarrow> ResultEntry \<Rightarrow> pid \<Rightarrow> (TuningStatus, 'e) run" where
  "dispatch t result params =
     (case ops t (entry_key result) of
        None \<Rightarrow> throw TORCH_CHECK_failed
      | Some op \<Rightarrow> call_op op params)"

text \<open>
  \<^verbatim>\<open>FindFastest\<close> is virtual: the entry point takes the selector it calls as its first
  argument.
\<close>

definition operator_call ::
  "(pid \<Rightarrow> (ResultEntry, 'e) run) \<Rightarrow> TuningContext \<Rightarrow> 'e TunableOp \<Rightarrow> 'e ParamsT \<Rightarrow> pid \<Rightarrow>
   (TuningStatus, 'e) run" where
  "operator_call find_fastest ctx t P params =
     bindM (if IsTunableOpEnabled ctx then
              bindM (Lookup (op_signature t) (Signature P)) (\<lambda>result.
              if result = Null \<and> IsTuningEnabled ctx then
                bindM (find_fastest params) (\<lambda>result.
                bindM (Add (op_signature t) (Signature P) result) (\<lambda>_.
                ret result))
              else ret result)
            else ret Default) (\<lambda>result.
     bindM (if result = Null then bindM (emit Log_no_result) (\<lambda>_. ret Default)
            else ret result) (\<lambda>result.
     dispatch t result params))"

definition TunableOp_call ::
  "'e platform \<Rightarrow> TuningContext \<Rightarrow> 'e TunableOp \<Rightarrow> 'e ParamsT \<Rightarrow> pid \<Rightarrow> (TuningStatus, 'e) run" where
  "TunableOp_call X ctx t P params = operator_call (FindFastest X ctx t P) ctx t P params"

section \<open>Reading a trace\<close>

text \<open>The statuses the candidate calls of a trace returned, in order.\<close>

fun status_of :: "event \<Rightarrow> TuningStatus list" where
  "status_of (Called p status) = [status]"
| "status_of _ = []"

definition call_statuses :: "'e world \<Rightarrow> TuningStatus list" where
  "call_statuses w = concat (map status_of (trace w))"

text \<open>
  The decisions of the per-candidate loop, as it logs them: a candidate is unsupported,
  fails the numerics check, is skipped as too slow, or is tuned (warmup and measurement
  with the logged iteration counts), and a tuned candidate may be found better.
\<close>

fun is_decision :: "event \<Rightarrow> bool" where
  "is_decision (Log_unsupported i name) = True"
| "is_decision (Log_numerics_failed i name) = True"
| "is_decision (Log_skip_slow i name) = True"
| "is_decision (Log_tuning warmup_iter tuning_iter i name) = True"
| "is_decision (Log_found_better i d name) = True"
| "is_decision _ = False"

definition decisions :: "'e world \<Rightarrow> event list" where
  "decisions w = filter is_decision (trace w)"

text \<open>The names that received a verdict, in order; a tuned candidate was timed.\<close>

fun verdict_name :: "event \<Rightarrow> string list" where
  "verdict_name (Log_unsupported i name) = [name]"
| "verdict_name (Log_numerics_failed i name) = [name]"
| "verdict_name (Log_skip_slow i name) = [name]"
| "verdict_name (Log_tuning warmup_iter tuning_iter i name) = [name]"
| "verdict_name _ = []"

definition evaluated :: "event list \<Rightarrow> string list" where
  "evaluated ds = concat (map verdict_name ds)"

text \<open>The leader after a list of decisions: the last candidate found better, if any.\<close>

fun take_lead :: "double \<times> string \<Rightarrow> event \<Rightarrow> double \<times> string" where
  "take_lead ld (Log_found_better i d name) = (d, name)"
| "take_lead ld _ = ld"

definition leader_after :: "double \<times> string \<Rightarrow> event list \<Rightarrow> double \<times> string" where
  "leader_after ld ds = foldl take_lead ld ds"

fun is_better :: "event \<Rightarrow> bool" where
  "is_better (Log_found_better i d name) = True"
| "is_better _ = False"

text \<open>No candidate is skipped as too slow before one was found better (\<open>b\<close>: one was
  found better earlier).\<close>

fun no_early_skip :: "bool \<Rightarrow> event list \<Rightarrow> bool" where
  "no_early_skip b [] = True"
| "no_early_skip b (Log_skip_slow i name # evs) = (b \<and> no_early_skip b evs)"
| "no_early_skip b (Log_found_better i d name # evs) = no_early_skip True evs"
| "no_early_skip b (ev # evs) = no_early_skip b evs"

text \<open>A computation that logs no decision.\<close>

definition quiet :: "('a, 'e) run \<Rightarrow> bool" where
  "quiet m = (\<forall>w r w'. m w = (r, w') \<longrightarrow> decisions w' = decisions w)"

text \<open>
  What one iteration of the loop decides for the candidate \<open>name\<close> at index \<open>i\<close>, from the
  leader \<open>ld\<close>: the decisions it logs and the leader it leaves.
\<close>

inductive step :: "nat \<Rightarrow> string \<Rightarrow> double \<times> string \<Rightarrow> event list \<Rightarrow> double \<times> string \<Rightarrow> bool" where
  unsupported: "step i name ld [Log_unsupported i name] ld"
| numerics: "step i name ld [Log_numerics_failed i name] ld"
| skipped: "too_slow a (fst ld) \<Longrightarrow> step i name ld [Log_skip_slow i name] ld"
| tuned: "\<not> too_slow a (fst ld) \<Longrightarrow> \<not> dlt d (fst ld) \<Longrightarrow>
     step i name ld [Log_tuning wi ti i name] ld"
| better: "\<not> too_slow a (fst ld) \<Longrightarrow> dlt d (fst ld) \<Longrightarrow>
     step i name ld [Log_tuning wi ti i name, Log_found_better i d name] (d, name)"

text \<open>What an iteration that stops with an error has logged.\<close>

inductive aborted :: "nat \<Rightarrow> string \<Rightarrow> event list \<Rightarrow> bool" where
  early: "aborted i name []"
| late: "aborted i name [Log_tuning wi ti i name]"

text \<open>The decisions of the whole loop, ending with a leader or stopped by an error.\<close>

inductive trail ::
  "nat \<Rightarrow> string list \<Rightarrow> double \<times> string \<Rightarrow> event list \<Rightarrow> (double \<times> string) option \<Rightarrow> bool" where
  finished: "trail i [] ld [] (Some ld)"
| continued: "step i name ld ds ld1 \<Longrightarrow> trail (Suc i) names ld1 ds' res \<Longrightarrow>
     trail i (name # names) ld (ds @ ds') res"
| stopped: "aborted i name ds \<Longrightarrow> trail i (name # names) ld ds None"

section \<open>A simulated platform\<close>

text \<open>
  A concrete world for worked runs: the environment is a clock in milliseconds with the
  two readings of the timer, a kernel is a fixed cost and a fixed status, and the
  parameters are 4096 bytes that always compare equal to the reference.
\<close>

record sim =
  clock :: nat
  t_start :: nat
  t_end :: nat

definition sim_platform :: "sim platform" where
  "sim_platform =
     \<lparr>flush_icache = (\<lambda>e. e),
      timer_Start = (\<lambda>e. e\<lparr>t_start := clock e\<rparr>),
      timer_End = (\<lambda>e. e\<lparr>t_end := clock e\<rparr>),
      timer_Duration = (\<lambda>e. Fin (real (t_end e - t_start e)))\<rparr>"

definition kernel :: "nat \<Rightarrow> TuningStatus \<Rightarrow> sim Callable" where
  "kernel cost status = \<lparr>Call = (\<lambda>p e. (status, e\<lparr>clock := clock e + cost\<rparr>))\<rparr>"

definition sim_params :: "sim ParamsT" where
  "sim_params =
     \<lparr>Signature = ''nn_64_64_64'', GetSize = (\<lambda>_. 4096), NumericalCheck = (\<lambda>r p e. (OK, e))\<rparr>"

definition sim_world :: "sim world" where
  "sim_world =
     \<lparr>env = \<lparr>clock = 0, t_start = 0, t_end = 0\<rparr>, results = (\<lambda>_. None),
      live = [], next_pid = 1, trace = []\<rparr>"

text \<open>Every knob unset (negative), no rotation, no numerics check, tuning enabled.\<close>

definition unset_ctx :: TuningContext where
  "unset_ctx =
     \<lparr>IsTunableOpEnabled = True, IsTuningEnabled = True, IsNumericsCheckEnabled = False,
      IsICacheFlushEnabled = 0, GetRotatingBufferSize = 0,
      GetMaxWarmupDurationMs = Fin (- 1), GetMaxWarmupIterations = - 1,
      GetMaxTuningDurationMs = Fin (- 1), GetMaxTuningIterations = - 1\<rparr>"

text \<open>A kernel that returns OK while the clock is below a limit, and FAIL from then on.\<close>

definition flaky :: "nat \<Rightarrow> nat \<Rightarrow> sim Callable" where
  "flaky cost limit =
     \<lparr>Call = (\<lambda>p e. (if clock e < limit then OK else FAIL, e\<lparr>clock := clock e + cost\<rparr>))\<rparr>"

definition empty_op :: "sim TunableOp" where
  "empty_op = \<lparr>op_signature = ''GemmTunableOp'', ops = (\<lambda>_. None), op_names = []\<rparr>"

text \<open>The spec's scenario: call costs of 10 ms, 2 ms and 50 ms.\<close>

definition three_kernels :: "sim TunableOp" where
  "three_kernels =
     RegisterOp ''SlowKernel'' (kernel 50 OK)
       (RegisterOp ''FastKernel'' (kernel 2 OK)
         (RegisterOp ''Default'' (kernel 10 OK) empty_op))"

definition broken_kernel :: "sim TunableOp" where
  "broken_kernel =
     RegisterOp ''Broken'' (kernel 1 FAIL) (RegisterOp ''Default'' (kernel 10 OK) empty_op)"

definition flaky_default :: "sim TunableOp" where
  "flaky_default = RegisterOp ''Default'' (flaky 10 30) empty_op"

definition tuned_ctx :: TuningContext where
  "tuned_ctx = unset_ctx\<lparr>GetMaxTuningIterations := 10\<rparr>"

definition numerics_ctx :: TuningContext where
  "numerics_ctx = tuned_ctx\<lparr>IsNumericsCheckEnabled := True\<rparr>"

text \<open>A world whose cache holds a decision for the simulated operation and parameters.\<close>

definition cached_world :: "sim world" where
  "cached_world =
     sim_world\<lparr>results :=
       (\<lambda>_. None)((''GemmTunableOp'', ''nn_64_64_64'') \<mapsto> Named ''FastKernel'' (Fin 2))\<rparr>"

section \<open>Properties\<close>

subsection \<open>Machine arithmetic\<close>







subsection \<open>Buffer pool sizing\<close>





subsection \<open>Iteration-count calibration\<close>







subsection \<open>Evaluating the simulated runs\<close>

lemmas run_defs = bindM_def ret_def throw_def emit_def TORCH_CHECK_def DeepCopy_def Delete_def
  call_op_def numerical_check_def do_flush_icache_def timer_start_def timer_end_def
  timer_duration_def Lookup_def Add_def

lemmas sim_defs = sim_platform_def kernel_def flaky_def sim_params_def empty_op_def
  three_kernels_def broken_kernel_def flaky_default_def unset_ctx_def tuned_ctx_def
  numerics_ctx_def sim_world_def cached_world_def RegisterOp_def

lemma call_loop_unfold:
  "call_loop X do_flush op param i n =
     (if n = 0 then ret ()
      else bindM (if do_flush then do_flush_icache X else ret ()) (\<lambda>_.
       if param = [] then throw Division_by_zero
       else bindM (call_op op (param ! (i mod length param))) (\<lambda>status.
          bindM (TORCH_CHECK (status = OK)) (\<lambda>_.
          call_loop X do_flush op param (Suc i) (n - 1)))))"
  by (cases n) simp_all

lemmas selector_defs = FindFastest_def reference_answer_def teardown_def make_pool_def
  param_count_def evaluate_candidate_def tune_candidate_def correctness_gate_def Profile_def
  WarmUp_def call_loop_unfold too_slow_def dgt_def dge_def warmup_iter_of_def tuning_iter_of_def
  std_max_def std_min_def int_of_size_t_def size_t_of_int_def double_of_size_t_def
  word_sless_alt word_sle_eq

lemma three_kernels_result:
  "fst (FindFastest sim_platform tuned_ctx three_kernels sim_params 0 sim_world)
     = Inr (Named ''FastKernel'' (Fin 2))"
  by (simp add: selector_defs run_defs sim_defs)

lemma three_kernels_decisions:
  "decisions (snd (FindFastest sim_platform tuned_ctx three_kernels sim_params 0 sim_world))
     = [Log_tuning 1 10 0 ''Default'', Log_found_better 0 (Fin 10) ''Default'',
        Log_tuning 1 10 1 ''FastKernel'', Log_found_better 1 (Fin 2) ''FastKernel'',
        Log_skip_slow 2 ''SlowKernel'']"
  by (simp add: decisions_def selector_defs run_defs sim_defs)

lemma three_kernels_run:
  "FindFastest sim_platform tuned_ctx three_kernels sim_params 0 sim_world
     = (Inr (Named ''FastKernel'' (Fin 2)),
        snd (FindFastest sim_platform tuned_ctx three_kernels sim_params 0 sim_world))"
  using three_kernels_result by (simp add: prod_eq_iff)

lemma three_kernels_names: "op_names three_kernels = [''Default'', ''FastKernel'', ''SlowKernel'']"
  by (simp add: three_kernels_def RegisterOp_def empty_op_def)

lemma sim_world_decisions: "decisions sim_world = []"
  by (simp add: decisions_def sim_world_def)

subsection \<open>The entry point\<close>

text \<open>
  C1. With the tunable-op feature enabled and a cache lookup that returns a decision
  other than Null, the entry point does exactly what the dispatch to the name of the
  cached decision does, whatever selector it was given: the selector is not invoked.
  The candidate registered under that name is called with the caller's parameters, and
  its status is the result; if no candidate is registered under it,
  \<^verbatim>\<open>TORCH_CHECK(iter != ops_.end())\<close> fails.
\<close>

theorem cache_first_dispatch:
  assumes "IsTunableOpEnabled ctx"
    and "fst (Lookup (op_signature t) (Signature P) w) = Inr r"
    and "r \<noteq> Null"
  shows "operator_call find_fastest ctx t P params w =
           (case ops t (entry_key r) of
              None \<Rightarrow> (Inl TORCH_CHECK_failed, w)
            | Some candidate \<Rightarrow> call_op candidate params w)"
  using assms
  by (auto simp: operator_call_def dispatch_def Lookup_def bindM_def ret_def throw_def
      split: option.splits)

text \<open>The cache names FastKernel: the call goes to the 2 ms kernel.\<close>

theorem cache_first_dispatch_witness:
  "TunableOp_call sim_platform unset_ctx three_kernels sim_params 0 cached_world
     = call_op (kernel 2 OK) 0 cached_world"
  using cache_first_dispatch [of unset_ctx three_kernels sim_params cached_world
      "Named ''FastKernel'' (Fin 2)" "FindFastest sim_platform unset_ctx three_kernels sim_params" 0]
  by (simp add: TunableOp_call_def Lookup_def sim_defs)

text \<open>
  C3 (amended). With the tunable-op feature disabled the entry point dispatches to
  Default, whatever the cache holds. With the feature enabled and only tuning disabled
  the cache is consulted: a cached decision other than Null is dispatched to, and Default
  is used (after the log line "no result, using default") when the lookup returns Null.
\<close>

theorem fallback_dispatch:
  assumes "fst (Lookup (op_signature t) (Signature P) w) = Inr r"
  shows "(\<not> IsTunableOpEnabled ctx \<longrightarrow>
            operator_call find_fastest ctx t P params w = dispatch t Default params w) \<and>
         (IsTunableOpEnabled ctx \<and> \<not> IsTuningEnabled ctx \<and> r \<noteq> Null \<longrightarrow>
            operator_call find_fastest ctx t P params w = dispatch t r params w) \<and>
         (IsTunableOpEnabled ctx \<and> \<not> IsTuningEnabled ctx \<and> r = Null \<longrightarrow>
            operator_call find_fastest ctx t P params w =
              bindM (emit Log_no_result) (\<lambda>_. dispatch t Default params) w)"
  using assms
  by (auto simp: operator_call_def Lookup_def bindM_def ret_def emit_def split: option.splits)

text \<open>Feature disabled, FastKernel cached: the call goes to the 10 ms Default kernel.\<close>

theorem fallback_dispatch_witness:
  "TunableOp_call sim_platform (unset_ctx\<lparr>IsTunableOpEnabled := False\<rparr>) three_kernels sim_params 0
      cached_world = call_op (kernel 10 OK) 0 cached_world"
  using fallback_dispatch [of three_kernels sim_params cached_world "Named ''FastKernel'' (Fin 2)"
      "unset_ctx\<lparr>IsTunableOpEnabled := False\<rparr>"
      "FindFastest sim_platform (unset_ctx\<lparr>IsTunableOpEnabled := False\<rparr>) three_kernels sim_params" 0]
  by (simp add: TunableOp_call_def Lookup_def dispatch_def sim_defs)

text \<open>
  C3 as stated fails with tuning disabled and the feature enabled: the cached FastKernel
  is called (the clock advances by its 2 ms), not Default.
\<close>

theorem fallback_dispatch_counterexample:
  "TunableOp_call sim_platform (unset_ctx\<lparr>IsTuningEnabled := False\<rparr>) three_kernels sim_params 0
      cached_world = call_op (kernel 2 OK) 0 cached_world
   \<and> call_op (kernel 2 OK) 0 cached_world \<noteq> dispatch three_kernels Default 0 cached_world
   \<and> clock (env (snd (TunableOp_call sim_platform (unset_ctx\<lparr>IsTuningEnabled := False\<rparr>)
        three_kernels sim_params 0 cached_world))) = 2"
  by (simp add: TunableOp_call_def operator_call_def dispatch_def run_defs sim_defs)

subsection \<open>The benchmark harness\<close>

lemma call_op_statuses:
  "call_op op p w = (r, w') \<Longrightarrow> \<exists>st. r = Inr st \<and> call_statuses w' = call_statuses w @ [st]"
  by (auto simp: call_op_def call_statuses_def split: prod.splits)

lemma flush_statuses:
  "(if do_flush then do_flush_icache X else ret ()) w = (r, w') \<Longrightarrow>
     r = Inr () \<and> call_statuses w' = call_statuses w"
  by (auto simp: do_flush_icache_def ret_def call_statuses_def split: if_splits)

lemma call_loop_statuses:
  assumes "param \<noteq> []"
  shows "case call_loop X do_flush op param i n w of
           (Inr u, w') \<Rightarrow> call_statuses w' = call_statuses w @ replicate n OK
         | (Inl err, w') \<Rightarrow> err = TORCH_CHECK_failed \<and>
             (\<exists>k st. k < n \<and> st \<noteq> OK \<and>
                call_statuses w' = call_statuses w @ replicate k OK @ [st])"
proof (induction n arbitrary: i w)
  case 0
  then show ?case by (simp add: ret_def)
next
  case (Suc n)
  obtain r1 w1 where f: "(if do_flush then do_flush_icache X else ret ()) w = (r1, w1)"
    by (cases "(if do_flush then do_flush_icache X else ret ()) w")
  from flush_statuses [OF f] have r1: "r1 = Inr ()" and s1: "call_statuses w1 = call_statuses w"
    by simp_all
  obtain r2 w2 where c: "call_op op (param ! (i mod length param)) w1 = (r2, w2)"
    by (cases "call_op op (param ! (i mod length param)) w1")
  from call_op_statuses [OF c] obtain st where
    r2: "r2 = Inr st" and s2: "call_statuses w2 = call_statuses w @ [st]"
    using s1 by auto
  show ?case
  proof (cases "st = OK")
    case True
    then have run: "call_loop X do_flush op param i (Suc n) w =
        call_loop X do_flush op param (Suc i) n w2"
      using f r1 c r2 assms by (simp add: bindM_def TORCH_CHECK_def ret_def)
    obtain r3 w3 where rec: "call_loop X do_flush op param (Suc i) n w2 = (r3, w3)"
      by (cases "call_loop X do_flush op param (Suc i) n w2")
    show ?thesis
    proof (cases r3)
      case (Inr u)
      with Suc.IH [where i = "Suc i" and w = w2] rec s2 True show ?thesis
        unfolding run by (simp add: replicate_app_Cons_same)
    next
      case (Inl err)
      with Suc.IH [where i = "Suc i" and w = w2] rec obtain k st' where
        "err = TORCH_CHECK_failed" "k < n" "st' \<noteq> OK"
        "call_statuses w3 = call_statuses w2 @ replicate k OK @ [st']"
        by auto
      then have "Suc k < Suc n \<and> st' \<noteq> OK \<and>
          call_statuses w3 = call_statuses w @ replicate (Suc k) OK @ [st']"
        using s2 True by simp
      then show ?thesis
        unfolding run using rec Inl \<open>err = TORCH_CHECK_failed\<close> by (auto simp del: replicate_Suc)
    qed
  next
    case False
    then have run: "call_loop X do_flush op param i (Suc n) w = (Inl TORCH_CHECK_failed, w2)"
      using f r1 c r2 assms by (simp add: bindM_def TORCH_CHECK_def throw_def)
    show ?thesis
      unfolding run using s2 False by (auto intro!: exI [where x = 0])
  qed
qed

text \<open>
  C9. A run of \<^verbatim>\<open>WarmUp\<close> or of \<^verbatim>\<open>Profile\<close> over a pool that is not empty either returns,
  and then it made exactly \<^verbatim>\<open>num_iter\<close> candidate calls and every one returned OK, or it
  stops with the failed \<^verbatim>\<open>TORCH_CHECK\<close>, and then the last call it made is the first one
  that did not return OK: the failure is not skipped over and no further call is made.
\<close>

theorem harness_asserts_ok:
  assumes "param \<noteq> []"
  shows "(case WarmUp X ctx op param num_iter w of
            (Inr u, w') \<Rightarrow> call_statuses w' = call_statuses w @ replicate (unat num_iter) OK
          | (Inl err, w') \<Rightarrow> err = TORCH_CHECK_failed \<and>
              (\<exists>k st. k < unat num_iter \<and> st \<noteq> OK \<and>
                 call_statuses w' = call_statuses w @ replicate k OK @ [st]))
       \<and> (case Profile X ctx op param num_iter w of
            (Inr d, w') \<Rightarrow> call_statuses w' = call_statuses w @ replicate (unat num_iter) OK
          | (Inl err, w') \<Rightarrow> err = TORCH_CHECK_failed \<and>
              (\<exists>k st. k < unat num_iter \<and> st \<noteq> OK \<and>
                 call_statuses w' = call_statuses w @ replicate k OK @ [st]))"
proof
  show "case WarmUp X ctx op param num_iter w of
            (Inr u, w') \<Rightarrow> call_statuses w' = call_statuses w @ replicate (unat num_iter) OK
          | (Inl err, w') \<Rightarrow> err = TORCH_CHECK_failed \<and>
              (\<exists>k st. k < unat num_iter \<and> st \<noteq> OK \<and>
                 call_statuses w' = call_statuses w @ replicate k OK @ [st])"
    unfolding WarmUp_def by (rule call_loop_statuses [OF assms])
next
  let ?w0 = "snd (timer_start X w)"
  have s0: "call_statuses ?w0 = call_statuses w"
    by (simp add: timer_start_def call_statuses_def)
  obtain r1 w1 where
    loop: "call_loop X (IsICacheFlushEnabled ctx \<noteq> 0) op param 0 (unat num_iter) ?w0 = (r1, w1)"
    by (cases "call_loop X (IsICacheFlushEnabled ctx \<noteq> 0) op param 0 (unat num_iter) ?w0")
  note post = call_loop_statuses [OF assms, where X = X and do_flush = "IsICacheFlushEnabled ctx \<noteq> 0"
      and op = op and i = 0 and n = "unat num_iter" and w = ?w0]
  show "case Profile X ctx op param num_iter w of
            (Inr d, w') \<Rightarrow> call_statuses w' = call_statuses w @ replicate (unat num_iter) OK
          | (Inl err, w') \<Rightarrow> err = TORCH_CHECK_failed \<and>
              (\<exists>k st. k < unat num_iter \<and> st \<noteq> OK \<and>
                 call_statuses w' = call_statuses w @ replicate k OK @ [st])"
  proof (cases r1)
    case (Inl err)
    then have "Profile X ctx op param num_iter w = (Inl err, w1)"
      using loop by (simp add: Profile_def bindM_def timer_start_def)
    then show ?thesis using post loop Inl s0 by simp
  next
    case (Inr u)
    then have "\<exists>d w2. Profile X ctx op param num_iter w = (Inr d, w2) \<and>
        call_statuses w2 = call_statuses w1"
      using loop
      by (simp add: Profile_def bindM_def timer_start_def timer_end_def timer_duration_def ret_def
          call_statuses_def)
    then show ?thesis using post loop Inr s0 by auto
  qed
qed

text \<open>
  A kernel that fails from its third call on stops a warmup of three iterations with the
  failed check; a healthy kernel of 5 ms is profiled at a mean of 5 ms over three calls;
  and a Default that passes the gate and then fails while it is profiled makes the whole
  selection fail.
\<close>

theorem harness_asserts_ok_witness:
  "fst (WarmUp sim_platform unset_ctx (flaky 5 10) [1] 3 sim_world) = Inl TORCH_CHECK_failed \<and>
   call_statuses (snd (WarmUp sim_platform unset_ctx (flaky 5 10) [1] 3 sim_world)) = [OK, OK, FAIL] \<and>
   fst (Profile sim_platform unset_ctx (kernel 5 OK) [1] 3 sim_world) = Inr (Fin 5) \<and>
   call_statuses (snd (Profile sim_platform unset_ctx (kernel 5 OK) [1] 3 sim_world)) = [OK, OK, OK] \<and>
   fst (FindFastest sim_platform tuned_ctx flaky_default sim_params 0 sim_world)
     = Inl TORCH_CHECK_failed"
  using
    harness_asserts_ok [where param = "[1]" and X = sim_platform and ctx = unset_ctx
      and op = "flaky 5 10" and num_iter = 3 and w = sim_world]
    harness_asserts_ok [where param = "[1]" and X = sim_platform and ctx = unset_ctx
      and op = "kernel 5 OK" and num_iter = 3 and w = sim_world]
  by (simp add: call_statuses_def selector_defs run_defs sim_defs)

subsection \<open>The correctness gate\<close>

text \<open>
  C4 (the code leaks on one path). With the numerics check enabled, the fresh copy the
  gate makes is released when the candidate's call returns OK, whatever the numerical
  comparison says; when the call does not return OK the gate says \<^verbatim>\<open>continue\<close> before
  it reaches \<^verbatim>\<open>numerical_params->Delete()\<close>, and the copy stays allocated.
\<close>

theorem gate_copy_release:
  assumes "IsNumericsCheckEnabled ctx" and "next_pid w \<notin> set (live w)"
    and "correctness_gate ctx P candidate reference_params reusable_params i name w = (r, w')"
  shows "if fst (Call candidate (next_pid w) (env w)) = OK then live w' = live w
         else r = Inr False \<and> live w' = live w @ [next_pid w]"
  using assms
  by (auto simp: correctness_gate_def run_defs split: prod.splits if_splits)

text \<open>
  A candidate whose call fails: the gate rejects it and leaves its copy allocated, and
  after the whole selection, teardown included, that copy is the one still allocated.
\<close>

theorem gate_copy_release_witness:
  "fst (FindFastest sim_platform numerics_ctx broken_kernel sim_params 0 sim_world)
     = Inr (Named ''Default'' (Fin 10)) \<and>
   live (snd (FindFastest sim_platform numerics_ctx broken_kernel sim_params 0 sim_world)) = [4] \<and>
   fst (correctness_gate numerics_ctx sim_params (kernel 1 FAIL) 1 [2] 1 ''Broken'' sim_world)
     = Inr False \<and>
   live (snd (correctness_gate numerics_ctx sim_params (kernel 1 FAIL) 1 [2] 1 ''Broken'' sim_world))
     = [1]"
  using gate_copy_release [of numerics_ctx sim_world sim_params "kernel 1 FAIL" 1 "[2]" 1 "''Broken''"
      "fst (correctness_gate numerics_ctx sim_params (kernel 1 FAIL) 1 [2] 1 ''Broken'' sim_world)"
      "snd (correctness_gate numerics_ctx sim_params (kernel 1 FAIL) 1 [2] 1 ''Broken'' sim_world)"]
  by (simp add: selector_defs run_defs sim_defs)

subsection \<open>Computations that log no decision\<close>

lemma bindM_cases:
  assumes "bindM m f w = (r, w'')"
  obtains (err) e where "m w = (Inl e, w'')" "r = Inl e"
        | (ok) v w' where "m w = (Inr v, w')" "f v w' = (r, w'')"
  using assms by (auto simp: bindM_def split: prod.splits sum.splits)

lemma quietD: "quiet m \<Longrightarrow> m w = (r, w') \<Longrightarrow> decisions w' = decisions w"
  by (auto simp: quiet_def)

lemma quiet_ret: "quiet (ret v)"
  by (simp add: quiet_def ret_def)

lemma quiet_throw: "quiet (throw e)"
  by (simp add: quiet_def throw_def)

lemma quiet_bindM: "quiet m \<Longrightarrow> (\<And>v. quiet (f v)) \<Longrightarrow> quiet (bindM m f)"
  unfolding quiet_def by (auto elim!: bindM_cases) 

lemma quiet_if: "(c \<Longrightarrow> quiet a) \<Longrightarrow> (\<not> c \<Longrightarrow> quiet b) \<Longrightarrow> quiet (if c then a else b)"
  by simp

lemma quiet_emit: "\<not> is_decision ev \<Longrightarrow> quiet (emit ev)"
  by (auto simp: quiet_def emit_def decisions_def)

lemma quiet_TORCH_CHECK: "quiet (TORCH_CHECK c)"
  by (simp add: TORCH_CHECK_def quiet_ret quiet_throw)

lemma quiet_prims:
  "quiet (DeepCopy rot)" "quiet (Delete p)" "quiet (call_op op p)"
  "quiet (numerical_check P ref p)" "quiet (do_flush_icache X)"
  "quiet (timer_start X)" "quiet (timer_end X)" "quiet (timer_duration X)"
  by (auto simp: quiet_def decisions_def DeepCopy_def Delete_def call_op_def numerical_check_def
      do_flush_icache_def timer_start_def timer_end_def timer_duration_def split: prod.splits)

lemmas quiet_intros = quiet_ret quiet_throw quiet_bindM quiet_if quiet_emit quiet_TORCH_CHECK quiet_prims

lemma quiet_call_loop: "quiet (call_loop X do_flush op param i n)"
  by (induction n arbitrary: i) (auto intro!: quiet_intros)

lemma quiet_WarmUp: "quiet (WarmUp X ctx op param n)"
  by (simp add: WarmUp_def quiet_call_loop)

lemma quiet_Profile: "quiet (Profile X ctx op param n)"
  unfolding Profile_def by (intro quiet_intros quiet_call_loop)

lemma quiet_flush_times: "quiet (flush_times X n)"
  by (induction n) (auto intro!: quiet_intros)

lemma quiet_deep_copies: "quiet (deep_copies rot n)"
  by (induction n) (auto intro!: quiet_intros)

lemma quiet_make_pool: "quiet (make_pool ctx P)"
  by (auto simp: make_pool_def Let_def intro!: quiet_intros quiet_deep_copies split: sum.splits)

lemma quiet_delete_all: "quiet (delete_all ps)"
  by (induction ps) (auto intro!: quiet_intros)

lemma emit_decisions:
  "emit ev w = (r, w') \<Longrightarrow> r = Inr () \<and> decisions w' = decisions w @ filter is_decision [ev]"
  by (auto simp: emit_def decisions_def)

lemma gate_decisions:
  assumes "correctness_gate ctx P candidate reference_params reusable_params i name w = (r, w')"
  shows "(r = Inr False \<and> (decisions w' = decisions w @ [Log_unsupported i name] \<or>
                           decisions w' = decisions w @ [Log_numerics_failed i name]))
       \<or> (r \<noteq> Inr False \<and> decisions w' = decisions w)"
  using assms unfolding correctness_gate_def
  by (auto simp: ret_def throw_def emit_def decisions_def split: if_splits elim!: bindM_cases
      dest!: quietD [OF quiet_prims(1)] quietD [OF quiet_prims(2)] quietD [OF quiet_prims(3)]
        quietD [OF quiet_prims(4)])

lemma tune_candidate_step:
  assumes "tune_candidate X ctx candidate reusable_params i name ld a w = (r, w')"
    and "\<not> too_slow a (fst ld)"
  shows "\<exists>ds. decisions w' = decisions w @ ds \<and>
           (case r of Inr ld' \<Rightarrow> step i name ld ds ld' | Inl err \<Rightarrow> aborted i name ds)"
proof (cases "warmup_iter_of ctx a")
  case (Inl err)
  with assms show ?thesis
    by (auto simp: tune_candidate_def throw_def intro: aborted.early)
next
  case wi: (Inr wi)
  show ?thesis
  proof (cases "tuning_iter_of ctx a (of_nat (length reusable_params))")
    case (Inl err)
    with assms wi show ?thesis
      by (auto simp: tune_candidate_def throw_def intro: aborted.early)
  next
    case ti: (Inr ti)
    obtain w1 where e1: "emit (Log_tuning wi ti i name) w = (Inr (), w1)"
      by (simp add: emit_def)
    have d1: "decisions w1 = decisions w @ [Log_tuning wi ti i name]"
      using emit_decisions [OF e1] by simp
    obtain r2 w2 where wu: "WarmUp X ctx candidate reusable_params (size_t_of_int wi) w1 = (r2, w2)"
      by (cases "WarmUp X ctx candidate reusable_params (size_t_of_int wi) w1")
    have d2: "decisions w2 = decisions w @ [Log_tuning wi ti i name]"
      using quietD [OF quiet_WarmUp wu] d1 by simp
    show ?thesis
    proof (cases r2)
      case (Inl err)
      with assms wi ti e1 wu have "r = Inl err" "w' = w2"
        by (auto simp: tune_candidate_def bindM_def)
      with d2 show ?thesis by (auto intro: aborted.late)
    next
      case (Inr u)
      obtain r3 w3 where pr: "Profile X ctx candidate reusable_params (size_t_of_int ti) w2 = (r3, w3)"
        by (cases "Profile X ctx candidate reusable_params (size_t_of_int ti) w2")
      have d3: "decisions w3 = decisions w @ [Log_tuning wi ti i name]"
        using quietD [OF quiet_Profile pr] d2 by simp
      show ?thesis
      proof (cases r3)
        case (Inl err)
        with assms wi ti e1 wu Inr pr have "r = Inl err" "w' = w3"
          by (auto simp: tune_candidate_def bindM_def)
        with d3 show ?thesis by (auto intro: aborted.late)
      next
        case d: (Inr d)
        show ?thesis
        proof (cases "dlt d (fst ld)")
          case True
          with assms wi ti e1 wu Inr pr d
          have "r = Inr (d, name)" "decisions w' = decisions w3 @ [Log_found_better i d name]"
            by (auto simp: tune_candidate_def bindM_def ret_def emit_def decisions_def)
          with d3 True assms(2) show ?thesis by (auto intro: step.better)
        next
          case False
          with assms wi ti e1 wu Inr pr d have "r = Inr ld" "w' = w3"
            by (auto simp: tune_candidate_def bindM_def ret_def)
          with d3 False assms(2) show ?thesis by (auto intro: step.tuned)
        qed
      qed
    qed
  qed
qed

lemma evaluate_candidate_step:
  assumes "evaluate_candidate X ctx t P reference_params reusable_params i name ld w = (r, w')"
  shows "\<exists>ds. decisions w' = decisions w @ ds \<and>
           (case r of Inr ld' \<Rightarrow> step i name ld ds ld' | Inl err \<Rightarrow> aborted i name ds)"
proof (cases "ops t name")
  case None
  with assms show ?thesis
    by (auto simp: evaluate_candidate_def throw_def intro: aborted.early)
next
  case (Some candidate)
  obtain r1 w1 where
    g: "correctness_gate ctx P candidate reference_params reusable_params i name w = (r1, w1)"
    by (cases "correctness_gate ctx P candidate reference_params reusable_params i name w")
  show ?thesis
  proof (cases r1)
    case (Inl err)
    with assms Some g have "r = Inl err" "w' = w1"
      by (auto simp: evaluate_candidate_def bindM_def)
    with gate_decisions [OF g] Inl show ?thesis by (auto intro: aborted.early)
  next
    case (Inr passed)
    show ?thesis
    proof (cases passed)
      case False
      with assms Some g Inr have "r = Inr ld" "w' = w1"
        by (auto simp: evaluate_candidate_def bindM_def ret_def)
      with gate_decisions [OF g] Inr False show ?thesis
        by (auto intro: step.unsupported step.numerics)
    next
      case True
      with gate_decisions [OF g] Inr have d1: "decisions w1 = decisions w" by simp
      obtain r2 w2 where p: "Profile X ctx candidate reusable_params 3 w1 = (r2, w2)"
        by (cases "Profile X ctx candidate reusable_params 3 w1")
      have d2: "decisions w2 = decisions w"
        using quietD [OF quiet_Profile p] d1 by simp
      show ?thesis
      proof (cases r2)
        case (Inl err)
        with assms Some g Inr True p have "r = Inl err" "w' = w2"
          by (auto simp: evaluate_candidate_def bindM_def)
        with d2 show ?thesis by (auto intro: aborted.early)
      next
        case a: (Inr a)
        show ?thesis
        proof (cases "too_slow a (fst ld)")
          case slow: True
          with assms Some g Inr True p a
          have "r = Inr ld" "decisions w' = decisions w2 @ [Log_skip_slow i name]"
            by (auto simp: evaluate_candidate_def bindM_def ret_def emit_def decisions_def)
          with d2 slow show ?thesis by (auto intro: step.skipped)
        next
          case False
          with assms Some g Inr True p a
          have "tune_candidate X ctx candidate reusable_params i name ld a w2 = (r, w')"
            by (auto simp: evaluate_candidate_def bindM_def)
          from tune_candidate_step [OF this False] d2 show ?thesis by simp
        qed
      qed
    qed
  qed
qed

lemma candidates_loop_trail:
  assumes "candidates_loop X ctx t P reference_params reusable_params i names ld w = (r, w')"
  shows "\<exists>ds. decisions w' = decisions w @ ds \<and>
           trail i names ld ds (case r of Inr ld' \<Rightarrow> Some ld' | Inl err \<Rightarrow> None)
           \<and> (names = [] \<longrightarrow> (\<exists>ld'. r = Inr ld'))"
  using assms
proof (induction names arbitrary: i ld w)
  case Nil
  then show ?case by (auto simp: ret_def intro: trail.finished)
next
  case (Cons name names)
  obtain r1 w1 where
    e: "evaluate_candidate X ctx t P reference_params reusable_params i name ld w = (r1, w1)"
    by (cases "evaluate_candidate X ctx t P reference_params reusable_params i name ld w")
  from evaluate_candidate_step [OF e] obtain ds1 where
    d1: "decisions w1 = decisions w @ ds1" and
    s1: "case r1 of Inr ld' \<Rightarrow> step i name ld ds1 ld' | Inl err \<Rightarrow> aborted i name ds1"
    by blast
  show ?case
  proof (cases r1)
    case (Inl err)
    with Cons.prems e have "r = Inl err" "w' = w1" by (auto simp: bindM_def)
    with d1 s1 Inl show ?thesis by (auto intro: trail.stopped)
  next
    case (Inr ld1)
    with Cons.prems e
    have rest: "candidates_loop X ctx t P reference_params reusable_params (Suc i) names ld1 w1 = (r, w')"
      by (auto simp: bindM_def)
    from Cons.IH [OF rest] obtain ds2 where
      d2: "decisions w' = decisions w1 @ ds2" and
      t2: "trail (Suc i) names ld1 ds2 (case r of Inr ld' \<Rightarrow> Some ld' | Inl err \<Rightarrow> None)"
      by blast
    from s1 Inr have "step i name ld ds1 ld1" by simp
    from trail.continued [OF this t2] d1 d2 show ?thesis by auto
  qed
qed

lemma quiet_bindM_cases:
  assumes "bindM m f w = (r, w')" and "quiet m"
  obtains (err) e where "r = Inl e" "decisions w' = decisions w"
        | (ok) v w1 where "decisions w1 = decisions w" "f v w1 = (r, w')"
  using assms by (auto elim!: bindM_cases dest: quietD)

lemma quiet_reference_answer: "quiet (reference_answer t)"
  unfolding reference_answer_def by (auto intro!: quiet_intros split: option.splits)

lemma quiet_teardown: "quiet (teardown ps p)"
  unfolding teardown_def by (intro quiet_intros quiet_delete_all)

lemma delete_all_returns: "\<exists>w'. delete_all ps w = (Inr (), w')"
  by (induction ps arbitrary: w) (auto simp: ret_def bindM_def Delete_def)

lemma teardown_returns: "\<exists>w'. teardown ps p w = (Inr (), w')"
  using delete_all_returns [of ps w] by (auto simp: teardown_def bindM_def Delete_def)

lemma FindFastest_trail:
  assumes "FindFastest X ctx t P params w = (r, w')"
  shows "\<exists>ds res. decisions w' = decisions w @ ds \<and>
           (ds = [] \<and> res = None \<or> trail 0 (op_names t) (PInf, ''Default'') ds res) \<and>
           (case r of Inr result \<Rightarrow> \<exists>ld. res = Some ld \<and> result = Named (snd ld) (fst ld)
            | Inl err \<Rightarrow> True)"
proof -
  have stop: ?thesis if "decisions w' = decisions w" "r = Inl e" for e
    using that by auto
  have q0: "quiet (emit (Log_finding_fastest (length (op_names t))) :: (unit, 'a) run)"
    by (simp add: quiet_emit)
  from assms [unfolded FindFastest_def] q0 show ?thesis
  proof (cases rule: quiet_bindM_cases)
    case (ok u1 w1)
    note d1 = ok(1)
    from ok(2) quiet_flush_times show ?thesis
    proof (cases rule: quiet_bindM_cases)
      case (ok u2 w2)
      note d2 = ok(1)
      from ok(2) quiet_reference_answer show ?thesis
      proof (cases rule: quiet_bindM_cases)
        case (ok reference_params w3)
        note d3 = ok(1)
        from ok(2) quiet_make_pool show ?thesis
        proof (cases rule: quiet_bindM_cases)
          case (ok reusable_params w4)
          have d4: "decisions w4 = decisions w"
            using ok(1) d3 d2 d1 by simp
          from ok(2) show ?thesis
          proof (cases rule: bindM_cases)
            case (err e)
            from candidates_loop_trail [OF err(1)] d4 err(2) show ?thesis by auto
          next
            case (ok leader w5)
            from candidates_loop_trail [OF ok(1)] obtain ds where
              d5: "decisions w5 = decisions w4 @ ds" and
              tr: "trail 0 (op_names t) (PInf, ''Default'') ds (Some leader)"
              by auto
            obtain w6 where td: "teardown reusable_params reference_params w5 = (Inr (), w6)"
              using teardown_returns by blast
            have d6: "decisions w6 = decisions w5"
              using quietD [OF quiet_teardown td] .
            from ok(2) td have "r = Inr (Named (snd leader) (fst leader))" "decisions w' = decisions w6"
              by (auto simp: bindM_def emit_def ret_def decisions_def)
            with d4 d5 d6 tr show ?thesis by auto
          qed
        next
          case (err e)
          then show ?thesis using stop d3 d2 d1 by simp
        qed
      next
        case (err e)
        then show ?thesis using stop d2 d1 by simp
      qed
    next
      case (err e)
      then show ?thesis using stop d1 by simp
    qed
  next
    case (err e)
    then show ?thesis using stop by simp
  qed
qed

subsection \<open>The decisions of a selection\<close>

lemma not_too_slow_PInf: "\<not> too_slow a PInf"
  by (cases a) (simp_all add: too_slow_def dgt_def)


lemma evaluated_append: "evaluated (xs @ ys) = evaluated xs @ evaluated ys"
  by (simp add: evaluated_def)

lemma leader_after_append: "leader_after ld (xs @ ys) = leader_after (leader_after ld xs) ys"
  by (simp add: leader_after_def)

lemma step_summary:
  assumes "step i name ld ds ld1"
  shows "evaluated ds = [name] \<and> ld1 = leader_after ld ds"
  using assms by cases (simp_all add: evaluated_def leader_after_def)

lemma trail_summary:
  assumes "trail i names ld ds (Some ld')"
  shows "evaluated ds = names \<and> ld' = leader_after ld ds"
  using assms
proof (induction i names ld ds "Some ld'" arbitrary: ld' rule: trail.induct)
  case (finished i ld)
  then show ?case by (simp add: evaluated_def leader_after_def)
next
  case (continued i name ld ds ld1 names ds')
  then show ?case
    using step_summary [OF continued.hyps(1)]
    by (simp add: evaluated_append leader_after_append)
qed

lemma no_early_skip_append:
  "no_early_skip b (xs @ ys) =
     (no_early_skip b xs \<and> no_early_skip (b \<or> (\<exists>ev \<in> set xs. is_better ev)) ys)"
proof (induction xs arbitrary: b)
  case Nil
  then show ?case by simp
next
  case (Cons ev xs)
  then show ?case by (cases ev) auto
qed

lemma no_early_skip_mono: "no_early_skip b evs \<Longrightarrow> no_early_skip True evs"
proof (induction evs arbitrary: b)
  case Nil
  then show ?case by simp
next
  case (Cons ev evs)
  then show ?case by (cases ev) auto
qed

lemma no_early_skipD:
  assumes "no_early_skip False (pre @ Log_skip_slow j n # post)"
  shows "\<exists>k d m. Log_found_better k d m \<in> set pre"
proof -
  from assms have "\<exists>ev \<in> set pre. is_better ev"
    by (simp add: no_early_skip_append)
  then obtain ev where mem: "ev \<in> set pre" and b: "is_better ev" by blast
  from b obtain k d m where "ev = Log_found_better k d m" by (cases ev) simp_all
  with mem show ?thesis by blast
qed

lemma step_no_early_skip:
  assumes "step i name ld ds ld1" and "fst ld \<noteq> PInf \<longrightarrow> b"
  shows "no_early_skip b ds \<and> (fst ld1 \<noteq> PInf \<longrightarrow> b \<or> (\<exists>ev \<in> set ds. is_better ev))"
  using assms by cases (auto simp: not_too_slow_PInf)

lemma trail_no_early_skip:
  assumes "trail i names ld ds res" and "fst ld \<noteq> PInf \<longrightarrow> b"
  shows "no_early_skip b ds"
  using assms
proof (induction arbitrary: b)
  case (finished i ld)
  then show ?case by simp
next
  case (continued i name ld ds ld1 names ds' res)
  from step_no_early_skip [OF continued.hyps(1) continued.prems]
  have 1: "no_early_skip b ds" and 2: "fst ld1 \<noteq> PInf \<longrightarrow> b \<or> (\<exists>ev \<in> set ds. is_better ev)"
    by simp_all
  from continued.IH [OF 2] 1 show ?case by (simp add: no_early_skip_append)
next
  case (stopped i name ds names ld)
  then show ?case by (auto elim: aborted.cases)
qed








text \<open>
  C5 (amended). In a run of FindFastest that returns, every registered name, the one
  registered as Default included, receives exactly one verdict in the per-candidate
  loop, in registration order; the result is the leader after the decisions of the loop,
  which starts as Default with an infinite duration and changes only when a candidate is
  found better: the name Default is the seed and the fallback, and the candidate
  registered as Default competes like any other.
\<close>

theorem default_is_seed_and_candidate:
  assumes "FindFastest X ctx t P params w = (Inr result, w')"
  shows "\<exists>ds. decisions w' = decisions w @ ds \<and> evaluated ds = op_names t \<and>
           result = Named (snd (leader_after (PInf, ''Default'') ds))
                          (fst (leader_after (PInf, ''Default'') ds))"
proof -
  from FindFastest_trail [OF assms(1)] obtain ds ld where
    d: "decisions w' = decisions w @ ds" and
    tr: "trail 0 (op_names t) (PInf, ''Default'') ds (Some ld)" and
    res: "result = Named (snd ld) (fst ld)"
    by auto
  from trail_summary [OF tr] d res show ?thesis by auto
qed

text \<open>The spec's scenario: three verdicts in registration order, FastKernel leads.\<close>

theorem default_is_seed_and_candidate_witness:
  "evaluated (decisions (snd (FindFastest sim_platform tuned_ctx three_kernels sim_params 0 sim_world)))
     = [''Default'', ''FastKernel'', ''SlowKernel''] \<and>
   Named ''FastKernel'' (Fin 2) =
     Named (snd (leader_after (PInf, ''Default'') (decisions (snd
              (FindFastest sim_platform tuned_ctx three_kernels sim_params 0 sim_world)))))
           (fst (leader_after (PInf, ''Default'') (decisions (snd
              (FindFastest sim_platform tuned_ctx three_kernels sim_params 0 sim_world)))))"
proof -
  from default_is_seed_and_candidate [OF three_kernels_run] show ?thesis
    unfolding three_kernels_names by (simp add: sim_world_decisions)
qed

text \<open>
  C5 as stated fails in the spec's scenario: the candidate registered as Default is tuned
  in the loop (one warmup and ten measured iterations at index 0) and found better than
  the seed, with a measured 10 ms.
\<close>

theorem default_is_timed_counterexample:
  "Log_tuning 1 10 0 ''Default'' \<in> set (trace (snd
     (FindFastest sim_platform tuned_ctx three_kernels sim_params 0 sim_world))) \<and>
   Log_found_better 0 (Fin 10) ''Default'' \<in> set (trace (snd
     (FindFastest sim_platform tuned_ctx three_kernels sim_params 0 sim_world)))"
  by (simp add: selector_defs run_defs sim_defs)

text \<open>
  C10. Nothing is too slow against the infinite seed, so an iteration of the loop that
  starts from an infinite running minimum has no skip branch: a candidate that passes the
  gate is profiled and goes on to calibration, warmup and measurement. And in every run
  of FindFastest, however it ends, each decision to skip a candidate as too slow comes
  after a decision that some candidate was found better, that is, after a completed
  measurement.
\<close>

theorem no_skip_before_first_measurement:
  assumes "FindFastest X ctx t P params w = (r, w')"
  shows "(\<forall>a. \<not> too_slow a PInf) \<and>
         evaluate_candidate X ctx t P reference_params reusable_params i name (PInf, id_name) =
           (case ops t name of
              None \<Rightarrow> throw Null_callable
            | Some candidate \<Rightarrow>
                bindM (correctness_gate ctx P candidate reference_params reusable_params i name)
                  (\<lambda>passed.
                if \<not> passed then ret (PInf, id_name)
                else bindM (Profile X ctx candidate reusable_params 3) (\<lambda>approx_duration.
                     tune_candidate X ctx candidate reusable_params i name (PInf, id_name)
                       approx_duration))) \<and>
         (\<exists>ds. decisions w' = decisions w @ ds \<and>
            (\<forall>pre j n post. ds = pre @ Log_skip_slow j n # post \<longrightarrow>
               (\<exists>k d m. Log_found_better k d m \<in> set pre)))"
proof -
  have seed: "evaluate_candidate X ctx t P reference_params reusable_params i name (PInf, id_name) =
           (case ops t name of
              None \<Rightarrow> throw Null_callable
            | Some candidate \<Rightarrow>
                bindM (correctness_gate ctx P candidate reference_params reusable_params i name)
                  (\<lambda>passed.
                if \<not> passed then ret (PInf, id_name)
                else bindM (Profile X ctx candidate reusable_params 3) (\<lambda>approx_duration.
                     tune_candidate X ctx candidate reusable_params i name (PInf, id_name)
                       approx_duration)))"
    by (simp add: evaluate_candidate_def not_too_slow_PInf cong: if_cong option.case_cong)
  from FindFastest_trail [OF assms(1)] obtain ds res where
    d: "decisions w' = decisions w @ ds" and
    tr: "ds = [] \<and> res = None \<or> trail 0 (op_names t) (PInf, ''Default'') ds res"
    by auto
  from tr have "no_early_skip False ds"
    using trail_no_early_skip [of 0 "op_names t" "(PInf, ''Default'')" ds res False] by auto
  then have "\<exists>k d m. Log_found_better k d m \<in> set pre" if "ds = pre @ Log_skip_slow j n # post"
    for pre j n post
    using that no_early_skipD by blast
  with d have "\<exists>ds. decisions w' = decisions w @ ds \<and>
      (\<forall>pre j n post. ds = pre @ Log_skip_slow j n # post \<longrightarrow>
         (\<exists>k d m. Log_found_better k d m \<in> set pre))"
    by blast
  with seed not_too_slow_PInf show ?thesis by blast
qed

text \<open>The spec's scenario: the skip of SlowKernel comes after two measurements.\<close>

theorem no_skip_before_first_measurement_witness:
  "\<exists>k d m. Log_found_better k d m \<in> set
     [Log_tuning 1 10 0 ''Default'', Log_found_better 0 (Fin 10) ''Default'',
      Log_tuning 1 10 1 ''FastKernel'', Log_found_better 1 (Fin 2) ''FastKernel'']"
proof -
  from no_skip_before_first_measurement [OF three_kernels_run, THEN conjunct2, THEN conjunct2]
  have "\<forall>pre j n post.
      decisions (snd (FindFastest sim_platform tuned_ctx three_kernels sim_params 0 sim_world))
        = pre @ Log_skip_slow j n # post \<longrightarrow> (\<exists>k d m. Log_found_better k d m \<in> set pre)"
    by (simp add: sim_world_decisions)
  then have "decisions (snd (FindFastest sim_platform tuned_ctx three_kernels sim_params 0 sim_world))
      = [Log_tuning 1 10 0 ''Default'', Log_found_better 0 (Fin 10) ''Default'',
         Log_tuning 1 10 1 ''FastKernel'', Log_found_better 1 (Fin 2) ''FastKernel'']
        @ Log_skip_slow 2 ''SlowKernel'' # [] \<longrightarrow>
     (\<exists>k d m. Log_found_better k d m \<in> set
       [Log_tuning 1 10 0 ''Default'', Log_found_better 0 (Fin 10) ''Default'',
        Log_tuning 1 10 1 ''FastKernel'', Log_found_better 1 (Fin 2) ''FastKernel''])"
    by blast
  then show ?thesis using three_kernels_decisions by simp
qed

end
